theory Spec2Isabelle
  imports Complex_Main "HOL-Library.Sublist"
begin

section \<open>Python strings\<close>

text \<open>
  Strings are lists of characters. \<open>str.upper\<close> is modelled on ASCII text, where it
  maps the letters \<open>a\<close> to \<open>z\<close> to \<open>A\<close> to \<open>Z\<close> and leaves every other
  character alone. Outside ASCII Python's \<open>upper\<close> does more (the dotless i becomes
  \<open>I\<close>, the sharp s becomes \<open>SS\<close>), which \<open>upper\<close> below does not follow: what is
  proved with it is proved of the code for ASCII text, and \<open>ascii_text\<close> says that a string
  is such a text.
\<close>

definition ascii_text :: "string \<Rightarrow> bool" where
  "ascii_text s = list_all (\<lambda>c. of_char c < (128::nat)) s"

definition upper_char :: "char \<Rightarrow> char" where
  "upper_char c =
     (case map_of (zip ''abcdefghijklmnopqrstuvwxyz'' ''ABCDEFGHIJKLMNOPQRSTUVWXYZ'') c of
        Some u \<Rightarrow> u
      | None \<Rightarrow> c)"

definition upper :: "string \<Rightarrow> string" where
  "upper s = map upper_char s"

text \<open>\<open>sub in s\<close>: \<open>sub\<close> occurs in \<open>s\<close> as a contiguous substring.\<close>

fun contains :: "string \<Rightarrow> string \<Rightarrow> bool" where
  "contains sub [] = (sub = [])"
| "contains sub (c # cs) = (prefix sub (c # cs) \<or> contains sub cs)"

text \<open>\<open>s.replace(old, new, 1)\<close>: only the leftmost occurrence is replaced.\<close>

fun replace_first :: "string \<Rightarrow> string \<Rightarrow> string \<Rightarrow> string" where
  "replace_first old new [] = (if old = [] then new else [])"
| "replace_first old new (c # cs) =
     (if prefix old (c # cs) then new @ drop (length old) (c # cs)
      else c # replace_first old new cs)"

text \<open>
  \<open>s.replace(old, new)\<close>: every occurrence is replaced, scanning from the left and
  resuming after each replaced occurrence. (For an empty \<open>old\<close> Python puts \<open>new\<close>
  around every character.)
\<close>

function replace_all :: "string \<Rightarrow> string \<Rightarrow> string \<Rightarrow> string" where
  "replace_all old new s =
     (if old = [] then new @ concat (map (\<lambda>c. c # new) s)
      else if s = [] then []
      else if prefix old s then new @ replace_all old new (drop (length old) s)
      else hd s # replace_all old new (tl s))"
  by pat_completeness auto
termination
  by (relation "measure (\<lambda>(old, new, s). length s)") auto

declare replace_all.simps [simp del]

text \<open>\<open>sep.join(parts)\<close>.\<close>

fun join :: "string \<Rightarrow> string list \<Rightarrow> string" where
  "join sep [] = []"
| "join sep [p] = p"
| "join sep (p # q # ps) = p @ sep @ join sep (q # ps)"

text \<open>\<open>str(n)\<close> for an integer, as an f-string renders it: decimal, with a minus sign.\<close>

function str_nat :: "nat \<Rightarrow> string" where
  "str_nat n =
     (if n < 10 then [''0123456789'' ! n]
      else str_nat (n div 10) @ [''0123456789'' ! (n mod 10)])"
  by pat_completeness auto
termination
  by (relation "measure id") auto

declare str_nat.simps [simp del]

definition str_int :: "int \<Rightarrow> string" where
  "str_int i = (if i < 0 then CHR ''-'' # str_nat (nat (- i)) else str_nat (nat i))"

text \<open>The single quote, which a string literal of the logic cannot hold.\<close>

definition quote :: string where
  "quote = [CHR 0x27]"


section \<open>Exceptions\<close>

text \<open>
  The exceptions of \<open>exceptions.py\<close> that the code raises, Python's \<open>ValueError\<close>, and
  \<open>Exception\<close> for anything an external collaborator raises. Each carries its message.
\<close>

datatype error =
    AuthenticationError string
  | QueryError string
  | ValueError string
  | Exception string


section \<open>The query builder (\<open>query.py\<close>)\<close>

record QueryBuilder =
  qb_select_fields :: "string list"
  qb_from_table :: "string option"
  qb_where_conditions :: "string list"
  qb_order_by :: "string option"
  qb_limit :: "int option"
  qb_offset :: "int option"

text \<open>\<open>QueryBuilder.__init__\<close>\<close>

definition init_builder :: QueryBuilder where
  "init_builder =
     \<lparr> qb_select_fields = [], qb_from_table = None, qb_where_conditions = [],
       qb_order_by = None, qb_limit = None, qb_offset = None \<rparr>"

text \<open>
  The mutators update the object and return it for chaining; none of them has a
  \<open>raise\<close>. The optional \<open>direction\<close> of \<open>order_by\<close> defaults to \<open>ASC\<close>.
\<close>

definition select :: "string list \<Rightarrow> QueryBuilder \<Rightarrow> QueryBuilder" where
  "select names self = self\<lparr>qb_select_fields := qb_select_fields self @ names\<rparr>"

definition from_table :: "string \<Rightarrow> QueryBuilder \<Rightarrow> QueryBuilder" where
  "from_table table self = self\<lparr>qb_from_table := Some table\<rparr>"

definition where_cond :: "string \<Rightarrow> QueryBuilder \<Rightarrow> QueryBuilder" where
  "where_cond condition self =
     self\<lparr>qb_where_conditions := qb_where_conditions self @ [condition]\<rparr>"

definition order_by :: "string \<Rightarrow> string option \<Rightarrow> QueryBuilder \<Rightarrow> QueryBuilder" where
  "order_by field direction self =
     self\<lparr>qb_order_by :=
       Some (field @ '' '' @ (case direction of None \<Rightarrow> ''ASC'' | Some d \<Rightarrow> d))\<rparr>"

definition limit :: "int \<Rightarrow> QueryBuilder \<Rightarrow> QueryBuilder" where
  "limit count self = self\<lparr>qb_limit := Some count\<rparr>"

definition offset :: "int \<Rightarrow> QueryBuilder \<Rightarrow> QueryBuilder" where
  "offset count self = self\<lparr>qb_offset := Some count\<rparr>"

text \<open>
  \<open>build\<close> reads the object and assembles the list \<open>query_parts\<close>, appending one
  clause after the other. The tests \<open>not self._from_table\<close> and \<open>if self._order_by\<close>
  are truthiness tests: \<open>None\<close> and the empty string both fail them.
\<close>

definition truthy :: "string option \<Rightarrow> bool" where
  "truthy v = (case v of None \<Rightarrow> False | Some s \<Rightarrow> s \<noteq> [])"

definition build :: "QueryBuilder \<Rightarrow> error + string" where
  "build self =
     (if qb_select_fields self = [] then Inl (ValueError ''SELECT fields required'')
      else if \<not> truthy (qb_from_table self) then Inl (ValueError ''FROM table required'')
      else
        let query_parts = [''SELECT '' @ join '', '' (qb_select_fields self)];
            query_parts = query_parts @
              [''FROM '' @ (case qb_from_table self of Some t \<Rightarrow> t | None \<Rightarrow> ''None'')];
            query_parts =
              (if qb_where_conditions self \<noteq> []
               then query_parts @ [''WHERE '' @ join '' AND '' (qb_where_conditions self)]
               else query_parts);
            query_parts =
              (if truthy (qb_order_by self)
               then query_parts @
                 [''ORDER BY '' @ (case qb_order_by self of Some ob \<Rightarrow> ob | None \<Rightarrow> ''None'')]
               else query_parts);
            query_parts =
              (case qb_limit self of
                 Some n \<Rightarrow> query_parts @ [''LIMIT '' @ str_int n]
               | None \<Rightarrow> query_parts);
            query_parts =
              (case qb_offset self of
                 Some n \<Rightarrow> query_parts @ [''OFFSET '' @ str_int n]
               | None \<Rightarrow> query_parts)
        in Inr (join '' '' query_parts))"

text \<open>
  Method calls on a builder object, with the object passed explicitly: a call returns
  what the method returns (the object itself, a rendered string or a raised exception)
  together with the object as the method leaves it. \<open>__str__\<close> returns \<open>self.build()\<close>.
\<close>

datatype method_call =
    Select "string list"
  | FromTable string
  | Where string
  | OrderBy string "string option"
  | Limit int
  | Offset int
  | Build
  | Str

datatype returned = Self | Rendered string | Raised error

definition str_method :: "QueryBuilder \<Rightarrow> error + string" where
  "str_method self = build self"

definition outcome :: "error + string \<Rightarrow> returned" where
  "outcome r = (case r of Inl e \<Rightarrow> Raised e | Inr q \<Rightarrow> Rendered q)"

fun call :: "method_call \<Rightarrow> QueryBuilder \<Rightarrow> returned \<times> QueryBuilder" where
  "call (Select names) self = (Self, select names self)"
| "call (FromTable table) self = (Self, from_table table self)"
| "call (Where condition) self = (Self, where_cond condition self)"
| "call (OrderBy field direction) self = (Self, order_by field direction self)"
| "call (Limit count) self = (Self, limit count self)"
| "call (Offset count) self = (Self, offset count self)"
| "call Build self = (outcome (build self), self)"
| "call Str self = (outcome (str_method self), self)"

text \<open>A chain of calls on one object: the object after the chain, and what each call returned.\<close>

fun chain :: "method_call list \<Rightarrow> QueryBuilder \<Rightarrow> returned list \<times> QueryBuilder" where
  "chain [] self = ([], self)"
| "chain (m # ms) self =
     (case call m self of (r, self') \<Rightarrow>
        (case chain ms self' of (rs, self'') \<Rightarrow> (r # rs, self'')))"


section \<open>The client (\<open>client.py\<close>)\<close>

subsection \<open>Requests to the external collaborators\<close>

text \<open>
  The calls the client makes to boto3 and to the clock, in the order it makes them:
  creating a service client, \<open>start_query_execution\<close> with the query string, the
  database and the output location, \<open>get_query_execution\<close> and the paginator of
  \<open>get_query_results\<close> for an execution id, and \<open>time.sleep\<close>.
\<close>

datatype request =
    CreateClient string string
  | StartQueryExecution string string string
  | GetQueryExecution string
  | Sleep nat
  | Paginate string

subsection \<open>Construction\<close>

record client =
  api_key :: string
  region :: string
  timeout :: int
  database :: string
  results_bucket :: string

text \<open>\<open>a or b\<close> on optional strings: \<open>a\<close> if it is truthy, else \<open>b\<close>.\<close>

definition py_or :: "string option \<Rightarrow> string option \<Rightarrow> string option" where
  "py_or a b = (if truthy a then a else b)"

text \<open>
  \<open>CosmosClient.__init__\<close>, given the arguments and the process environment: the
  exception raised or the object built, and the requests made on the way.
\<close>

definition init_client ::
  "string option \<Rightarrow> string \<Rightarrow> int \<Rightarrow> string \<Rightarrow> (string \<rightharpoonup> string)
     \<Rightarrow> (error + client) \<times> request list" where
  "init_client key region_name timeout_s database_name environ =
     (let self_api_key = py_or key (environ ''COSMOS_API_KEY'') in
      if \<not> truthy self_api_key then
        (Inl (AuthenticationError
           ''API key required. Pass api_key parameter or set COSMOS_API_KEY environment variable.''),
         [])
      else
        (Inr \<lparr> api_key = (case self_api_key of Some k \<Rightarrow> k | None \<Rightarrow> []),
               region = region_name, timeout = timeout_s, database = database_name,
               results_bucket = ''cosmos-query-results-'' @ region_name \<rparr>,
         [CreateClient ''athena'' region_name, CreateClient ''s3'' region_name]))"

subsection \<open>Rewriting the caller's SQL in \<open>query_galaxy\<close>\<close>

text \<open>The text \<open>galaxy_id = '<galaxy_id>'\<close>.\<close>

definition galaxy_filter :: "string \<Rightarrow> string" where
  "galaxy_filter galaxy_id = ''galaxy_id = '' @ quote @ galaxy_id @ quote"

text \<open>
  The \<open>for keyword in [...]\<close> loop with its \<open>else\<close>: the first keyword found in the
  upper-cased query ends the loop after one \<open>replace\<close> on the query as written; when
  the list is used up, the filter is appended.
\<close>

fun inject_before :: "string list \<Rightarrow> string \<Rightarrow> string \<Rightarrow> string" where
  "inject_before [] galaxy_id query = query @ '' WHERE '' @ galaxy_filter galaxy_id"
| "inject_before (keyword # keywords) galaxy_id query =
     (if contains keyword (upper query)
      then replace_first keyword (''WHERE '' @ galaxy_filter galaxy_id @ '' '' @ keyword) query
      else inject_before keywords galaxy_id query)"

definition inject_galaxy_id :: "string \<Rightarrow> string \<Rightarrow> string" where
  "inject_galaxy_id galaxy_id query =
     (if contains ''WHERE'' (upper query)
      then replace_first ''WHERE'' (''WHERE '' @ galaxy_filter galaxy_id @ '' AND'') query
      else inject_before [''LIMIT'', ''ORDER BY'', ''GROUP BY''] galaxy_id query)"

definition add_universe_time :: "string \<Rightarrow> int \<Rightarrow> string \<Rightarrow> string" where
  "add_universe_time galaxy_id universe_time query =
     (if universe_time > 0
      then replace_all (galaxy_filter galaxy_id)
             (galaxy_filter galaxy_id @ '' AND universe_time = '' @ str_int universe_time) query
      else query)"

text \<open>The query string that \<open>query_galaxy\<close> hands to \<open>_execute_query\<close>.\<close>

definition query_galaxy_sql :: "string \<Rightarrow> string \<Rightarrow> int \<Rightarrow> string" where
  "query_galaxy_sql galaxy_id query universe_time =
     add_universe_time galaxy_id universe_time (inject_galaxy_id galaxy_id query)"

subsection \<open>\<open>_execute_query\<close>: submit, poll, fetch\<close>

text \<open>
  What the service answers is the input of the model. A call to the service either
  raises (\<open>Inl\<close> with the exception's message) or returns. A status response holds the
  state and, when the service gives one, the reason. Each round of the poll loop comes
  with the value that \<open>time.time() - start_time\<close> has in that round, the number of
  seconds since the submission; the round's timeout test reads it when the round gets
  that far.
\<close>

record status =
  State :: string
  StateChangeReason :: "string option"

record poll =
  response :: "string + status"
  elapsed :: real

text \<open>
  A column is a dictionary that may have the key \<open>VarCharValue\<close>; a row is the list
  under \<open>Data\<close>; a page is the list under \<open>ResultSet.Rows\<close>.
\<close>

type_synonym column = "string \<rightharpoonup> string"
type_synonym row = "column list"
type_synonym page = "row list"
type_synonym result_tuple = "string option list"

record athena =
  start_query_execution :: "string + string"
  get_query_execution :: "poll list"
  get_query_results :: "(string + page) list"

text \<open>
  The \<open>while True\<close> loop. Each round consumes one scripted answer; \<open>None\<close> means the
  loop is still running when the script ends. The second component lists the requests
  made.
\<close>

fun poll_loop :: "int \<Rightarrow> string \<Rightarrow> poll list \<Rightarrow> (error + unit) option \<times> request list" where
  "poll_loop timeout_s query_id [] = (None, [])"
| "poll_loop timeout_s query_id (p # ps) =
     (case response p of
        Inl e \<Rightarrow> (Some (Inl (Exception e)), [GetQueryExecution query_id])
      | Inr st \<Rightarrow>
          if State st = ''SUCCEEDED'' then (Some (Inr ()), [GetQueryExecution query_id])
          else if State st = ''FAILED'' \<or> State st = ''CANCELLED'' then
            (Some (Inl (QueryError (''Query failed: '' @
               (case StateChangeReason st of Some reason \<Rightarrow> reason | None \<Rightarrow> ''Unknown error'')))),
             [GetQueryExecution query_id])
          else if elapsed p > real_of_int timeout_s then
            (Some (Inl (QueryError (''Query timeout after '' @ str_int timeout_s @ ''s''))),
             [GetQueryExecution query_id])
          else
            (case poll_loop timeout_s query_id ps of
               (r, requests) \<Rightarrow> (r, GetQueryExecution query_id # Sleep 1 # requests)))"

text \<open>The two \<open>for\<close> loops of the fetch, appending to \<open>results\<close>.\<close>

definition decode :: "row \<Rightarrow> result_tuple" where
  "decode r = map (\<lambda>col. col ''VarCharValue'') r"

fun fetch_rows :: "row list \<Rightarrow> result_tuple list \<Rightarrow> result_tuple list" where
  "fetch_rows [] results = results"
| "fetch_rows (r # rs) results = fetch_rows rs (results @ [decode r])"

fun fetch_pages :: "(string + page) list \<Rightarrow> result_tuple list \<Rightarrow> error + result_tuple list" where
  "fetch_pages [] results = Inr results"
| "fetch_pages (Inl e # pages) results = Inl (Exception e)"
| "fetch_pages (Inr pg # pages) results = fetch_pages pages (fetch_rows (drop 1 pg) results)"

text \<open>The \<open>except Exception\<close> clause around the body.\<close>

fun reraise :: "error \<Rightarrow> error" where
  "reraise (QueryError msg) = QueryError msg"
| "reraise (AuthenticationError msg) = AuthenticationError msg"
| "reraise (ValueError msg) = QueryError (''Query execution failed: '' @ msg)"
| "reraise (Exception msg) = QueryError (''Query execution failed: '' @ msg)"

definition execute_query ::
  "client \<Rightarrow> athena \<Rightarrow> string \<Rightarrow> (error + result_tuple list) option \<times> request list" where
  "execute_query self service query =
     (let start = StartQueryExecution query (database self)
                    (''s3://'' @ results_bucket self @ ''/queries/'')
      in case start_query_execution service of
           Inl e \<Rightarrow> (Some (Inl (reraise (Exception e))), [start])
         | Inr query_id \<Rightarrow>
             (case poll_loop (timeout self) query_id (get_query_execution service) of
                (None, requests) \<Rightarrow> (None, start # requests)
              | (Some (Inl err), requests) \<Rightarrow> (Some (Inl (reraise err)), start # requests)
              | (Some (Inr _), requests) \<Rightarrow>
                  (case fetch_pages (get_query_results service) [] of
                     Inl err \<Rightarrow>
                       (Some (Inl (reraise err)), start # requests @ [Paginate query_id])
                   | Inr results \<Rightarrow>
                       (Some (Inr results), start # requests @ [Paginate query_id]))))"

text \<open>\<open>_rows_to_dicts\<close>: every row zipped with \<open>col0\<close>, \<open>col1\<close>, ...\<close>

definition rows_to_dicts :: "result_tuple list \<Rightarrow> string \<Rightarrow> (string \<times> string option) list list" where
  "rows_to_dicts rows query =
     (case rows of
        [] \<Rightarrow> []
      | first # _ \<Rightarrow>
          (let col_names = map (\<lambda>i. ''col'' @ str_nat i) [0..<length first]
           in map (\<lambda>r. zip col_names r) rows))"

definition query_galaxy ::
  "client \<Rightarrow> athena \<Rightarrow> string \<Rightarrow> string \<Rightarrow> int
     \<Rightarrow> (error + (string \<times> string option) list list) option \<times> request list" where
  "query_galaxy self service galaxy_id query universe_time =
     (let rewritten = query_galaxy_sql galaxy_id query universe_time
      in case execute_query self service rewritten of
           (None, requests) \<Rightarrow> (None, requests)
         | (Some (Inl err), requests) \<Rightarrow> (Some (Inl err), requests)
         | (Some (Inr results), requests) \<Rightarrow>
             (Some (Inr (rows_to_dicts results rewritten)), requests))"


section \<open>Notions used in the statements\<close>

text \<open>The clauses of a rendered query, each with its leading space, empty when omitted.\<close>

definition where_clause :: "QueryBuilder \<Rightarrow> string" where
  "where_clause s =
     (if qb_where_conditions s = [] then []
      else '' WHERE '' @ join '' AND '' (qb_where_conditions s))"

definition order_clause :: "QueryBuilder \<Rightarrow> string" where
  "order_clause s =
     (case qb_order_by s of
        None \<Rightarrow> []
      | Some ob \<Rightarrow> if ob = [] then [] else '' ORDER BY '' @ ob)"

definition limit_clause :: "QueryBuilder \<Rightarrow> string" where
  "limit_clause s = (case qb_limit s of None \<Rightarrow> [] | Some n \<Rightarrow> '' LIMIT '' @ str_int n)"

definition offset_clause :: "QueryBuilder \<Rightarrow> string" where
  "offset_clause s = (case qb_offset s of None \<Rightarrow> [] | Some n \<Rightarrow> '' OFFSET '' @ str_int n)"

text \<open>The methods that change the builder, as opposed to the two that render it.\<close>

fun is_mutator :: "method_call \<Rightarrow> bool" where
  "is_mutator Build = False"
| "is_mutator Str = False"
| "is_mutator _ = True"

text \<open>
  A round of the poll loop after which the loop goes on: the service answered with a
  state that is not terminal, and the clock has not passed the timeout.
\<close>

definition terminal :: "status \<Rightarrow> bool" where
  "terminal st = (State st = ''SUCCEEDED'' \<or> State st = ''FAILED'' \<or> State st = ''CANCELLED'')"

definition running :: "int \<Rightarrow> poll \<Rightarrow> bool" where
  "running timeout_s p =
     (case response p of
        Inl _ \<Rightarrow> False
      | Inr st \<Rightarrow> \<not> terminal st \<and> elapsed p \<le> real_of_int timeout_s)"

text \<open>The requests of \<open>n\<close> rounds that went on: a status check and a sleep each.\<close>

definition rounds :: "string \<Rightarrow> nat \<Rightarrow> request list" where
  "rounds query_id n = concat (replicate n [GetQueryExecution query_id, Sleep 1])"

definition submit :: "client \<Rightarrow> string \<Rightarrow> request" where
  "submit self query =
     StartQueryExecution query (database self) (''s3://'' @ results_bucket self @ ''/queries/'')"

text \<open>Values for the concrete runs below.\<close>

definition answer :: "string \<Rightarrow> string option \<Rightarrow> real \<Rightarrow> poll" where
  "answer state_name reason t =
     \<lparr> response = Inr \<lparr> State = state_name, StateChangeReason = reason \<rparr>, elapsed = t \<rparr>"

definition cell :: "string \<Rightarrow> column" where
  "cell v = [''VarCharValue'' \<mapsto> v]"

definition null_cell :: column where
  "null_cell = Map.empty"

definition demo_client :: client where
  "demo_client =
     \<lparr> api_key = ''key'', region = ''us-east-1'', timeout = 300,
       database = ''cosmological_production'',
       results_bucket = ''cosmos-query-results-us-east-1'' \<rparr>"

definition demo_pages :: "page list" where
  "demo_pages =
     [ [[cell ''id'', cell ''mass''], [cell ''s1'', cell ''12''], [cell ''s2'', null_cell]],
       [[cell ''s3'', cell ''7''], [cell ''s4'', cell ''9'']] ]"

definition demo_service :: "poll list \<Rightarrow> athena" where
  "demo_service polls =
     \<lparr> start_query_execution = Inr ''q-1'', get_query_execution = polls,
       get_query_results = map Inr demo_pages \<rparr>"

definition example_full :: QueryBuilder where
  "example_full =
     offset 2 (limit 5 (order_by ''z'' None (where_cond ''y<2'' (where_cond ''x>1''
       (from_table ''t'' (select [''a''] init_builder))))))"

definition example_plain :: QueryBuilder where
  "example_plain = from_table ''t'' (select [''a'', ''b''] init_builder)"


section \<open>The query builder: rendering and validation\<close>

lemma join_snoc:
  "join sep (ps @ [p]) = (if ps = [] then p else join sep ps @ sep @ p)"
  by (induction sep ps rule: join.induct) auto

lemmas builder_defs =
  init_builder_def select_def from_table_def where_cond_def order_by_def limit_def offset_def

text \<open>
  C7, as stated, fails on one kind of state: a builder with a selected field whose table
  was set to the empty string. The guard \<open>not self._from_table\<close> treats the empty name
  like no name, and \<open>build\<close> raises instead of rendering.
\<close>

theorem build_empty_table_name:
  "build (from_table '''' (select [''a''] init_builder)) = Inl (ValueError ''FROM table required'')"
  by (simp add: build_def truthy_def builder_defs)

text \<open>
  C7 (amended: the table name is not empty). For every builder state with at least one
  selected field and a non-empty table name, \<open>build\<close> returns
  \<open>SELECT <fields> FROM <table>\<close> followed by the clauses \<open>WHERE <c1> AND <c2> ...\<close>,
  \<open>ORDER BY <field> <dir>\<close>, \<open>LIMIT <n>\<close> and \<open>OFFSET <n>\<close> in that order, each
  preceded by exactly one space and each left out when it has no data; the fields are
  joined by a comma and a space, the conditions by \<open>AND\<close>.
\<close>

theorem build_renders:
  assumes "qb_select_fields s \<noteq> []" and "qb_from_table s = Some t" and "t \<noteq> []"
  shows "build s =
     Inr (''SELECT '' @ join '', '' (qb_select_fields s) @ '' FROM '' @ t
          @ where_clause s @ order_clause s @ limit_clause s @ offset_clause s)"
  using assms
  by (simp add: build_def truthy_def Let_def join_snoc where_clause_def order_clause_def
      limit_clause_def offset_clause_def split: option.splits)

text \<open>
  The two renderings that C7 spells out, obtained from the theorem above: the full chain
  \<open>select("a").from_table("t").where("x>1").where("y<2").order_by("z").limit(5).offset(2)\<close>
  and the plain \<open>select("a", "b").from_table("t")\<close>.
\<close>

theorem build_renders_witness:
  "build example_full = Inr ''SELECT a FROM t WHERE x>1 AND y<2 ORDER BY z ASC LIMIT 5 OFFSET 2''
   \<and> build example_plain = Inr ''SELECT a, b FROM t''"
  using build_renders [of example_full "''t''"] build_renders [of example_plain "''t''"]
  by (simp add: example_full_def example_plain_def builder_defs where_clause_def
      order_clause_def limit_clause_def offset_clause_def str_int_def str_nat.simps)

text \<open>
  C8, as stated, fails in the direction "only if": after \<open>select("a")\<close> and
  \<open>from_table("")\<close> a field was selected and a table was set, the two mutators returned
  the object, and \<open>build\<close> raises all the same.
\<close>

theorem build_fails_with_table_set:
  "chain [Select [''a''], FromTable '''', Build] init_builder =
     ([Self, Self, Raised (ValueError ''FROM table required'')],
      \<lparr> qb_select_fields = [''a''], qb_from_table = Some '''', qb_where_conditions = [],
        qb_order_by = None, qb_limit = None, qb_offset = None \<rparr>)"
  by (simp add: build_def truthy_def builder_defs outcome_def)

lemma chain_mutators:
  "list_all is_mutator ms \<Longrightarrow> fst (chain ms s) = replicate (length ms) Self"
proof (induction ms arbitrary: s)
  case Nil
  then show ?case by simp
next
  case (Cons m ms)
  then have "is_mutator m" and rest: "list_all is_mutator ms" by simp_all
  then have "fst (call m s) = Self" by (cases m) simp_all
  moreover have "fst (chain ms (snd (call m s))) = replicate (length ms) Self"
    using Cons.IH rest by blast
  ultimately show ?case by (simp add: split_beta)
qed

text \<open>
  C8 (amended: an empty table name counts like a missing one). For every builder state,
  \<open>build\<close> raises \<open>ValueError\<close> if and only if no field was selected, or no table was
  set, or the table was set to the empty string; in every other state it returns a
  string. The failure belongs to \<open>build\<close>: in any chain of \<open>select\<close>, \<open>from_table\<close>,
  \<open>where\<close>, \<open>order_by\<close>, \<open>limit\<close> and \<open>offset\<close> calls, from any state, every call
  returns the object and none raises.
\<close>

theorem build_fails_iff:
  "((\<exists>msg. build s = Inl (ValueError msg)) \<longleftrightarrow>
      (qb_select_fields s = [] \<or> qb_from_table s = None \<or> qb_from_table s = Some []))
   \<and> ((\<exists>q. build s = Inr q) \<longleftrightarrow>
      (qb_select_fields s \<noteq> [] \<and> (\<exists>t. qb_from_table s = Some t \<and> t \<noteq> [])))
   \<and> (list_all is_mutator ms \<longrightarrow> fst (chain ms s') = replicate (length ms) Self)"
  by (auto simp: build_def truthy_def Let_def chain_mutators split: option.splits)

theorem build_fails_iff_witness:
  "list_all is_mutator [Select [''a''], Where ''x>1'', Limit 3]
   \<and> fst (chain [Select [''a''], Where ''x>1'', Limit 3] init_builder) = [Self, Self, Self]
   \<and> (\<exists>msg. build (snd (chain [Select [''a''], Where ''x>1'', Limit 3] init_builder))
          = Inl (ValueError msg))"
  using build_fails_iff
    [where s = "snd (chain [Select [''a''], Where ''x>1'', Limit 3] init_builder)"
       and ms = "[Select [''a''], Where ''x>1'', Limit 3]" and s' = init_builder]
  by (simp add: builder_defs)

text \<open>
  C9. Calling \<open>build\<close> any number of times in a row returns the same result every time
  and leaves the builder as it was, and \<open>__str__\<close> returns what \<open>build\<close> returns. This
  holds in every state, so in particular in those where \<open>build\<close> succeeds.
\<close>

theorem build_idempotent:
  "chain (replicate n Build) s = (replicate n (outcome (build s)), s)
   \<and> call Str s = call Build s
   \<and> str_method s = build s"
proof -
  have "chain (replicate n Build) s = (replicate n (outcome (build s)), s)"
    by (induction n) simp_all
  then show ?thesis by (simp add: str_method_def)
qed

theorem build_idempotent_witness:
  "chain [Build, Build, Str] example_plain =
     ([Rendered ''SELECT a, b FROM t'', Rendered ''SELECT a, b FROM t'',
       Rendered ''SELECT a, b FROM t''], example_plain)"
proof -
  have b: "build example_plain = Inr ''SELECT a, b FROM t''"
    by (simp add: example_plain_def builder_defs build_def truthy_def)
  have "chain (replicate 2 Build) example_plain =
          (replicate 2 (outcome (build example_plain)), example_plain)"
    and "call Str example_plain = call Build example_plain"
    using build_idempotent [of 2 example_plain] by blast+
  then show ?thesis by (simp add: b outcome_def numeral_2_eq_2 split_beta)
qed


section \<open>Constructing the client\<close>

text \<open>
  C10. When the \<open>api_key\<close> argument is \<open>None\<close> or the empty string and the environment
  has no \<open>COSMOS_API_KEY\<close> or an empty one, the constructor raises
  \<open>AuthenticationError\<close> and has made no request: neither service client was created.
\<close>

theorem init_client_requires_key:
  assumes "key = None \<or> key = Some []"
    and "environ ''COSMOS_API_KEY'' = None \<or> environ ''COSMOS_API_KEY'' = Some []"
  shows "init_client key region_name timeout_s database_name environ =
     (Inl (AuthenticationError
        ''API key required. Pass api_key parameter or set COSMOS_API_KEY environment variable.''),
      [])"
  using assms by (auto simp: init_client_def py_or_def truthy_def Let_def)

theorem init_client_requires_key_witness:
  "init_client (Some '''') ''us-east-1'' 300 ''cosmological_production''
       [''COSMOS_API_KEY'' \<mapsto> '''', ''HOME'' \<mapsto> ''/root''] =
     (Inl (AuthenticationError
        ''API key required. Pass api_key parameter or set COSMOS_API_KEY environment variable.''),
      [])"
  using init_client_requires_key
    [of "Some ''''" "[''COSMOS_API_KEY'' \<mapsto> '''', ''HOME'' \<mapsto> ''/root'']"
       "''us-east-1''" 300 "''cosmological_production''"]
  by simp


section \<open>Submitting, polling and fetching\<close>

text \<open>Rounds that go on leave the outcome to the rest of the script and add their requests.\<close>

lemma poll_loop_running:
  "list_all (running t) pre \<Longrightarrow>
   poll_loop t qid (pre @ rest) =
     (fst (poll_loop t qid rest), rounds qid (length pre) @ snd (poll_loop t qid rest))"
proof (induction pre)
  case Nil
  then show ?case by (simp add: rounds_def)
next
  case (Cons p pre)
  then obtain st where st: "response p = Inr st" "\<not> terminal st" "elapsed p \<le> real_of_int t"
    by (auto simp: running_def split: sum.splits)
  from Cons have "list_all (running t) pre" by simp
  with Cons.IH have IH: "poll_loop t qid (pre @ rest) =
     (fst (poll_loop t qid rest), rounds qid (length pre) @ snd (poll_loop t qid rest))" by simp
  show ?case using st by (simp add: IH rounds_def terminal_def)
qed

lemma fetch_rows_eq: "fetch_rows rs results = results @ map decode rs"
  by (induction rs arbitrary: results) auto

lemma fetch_pages_eq:
  "fetch_pages (map Inr pages) results =
     Inr (results @ concat (map (\<lambda>pg. map decode (drop 1 pg)) pages))"
  by (induction pages arbitrary: results) (auto simp: fetch_rows_eq)

lemma count_rows:
  "list_all (\<lambda>pg. pg \<noteq> []) pages \<Longrightarrow>
   int (length (concat (map (\<lambda>pg. map decode (drop 1 pg)) pages)))
     = int (sum_list (map length pages)) - int (length pages)"
proof (induction pages)
  case Nil
  then show ?case by simp
next
  case (Cons pg pages)
  then have "pg \<noteq> []" by simp
  then have "int (length pg - 1) = int (length pg) - 1"
    by (cases pg) auto
  with Cons show ?case by simp
qed

text \<open>
  C4, as stated, fails when the first answer that arrives after the timeout has elapsed
  carries a terminal state. With a timeout of 300 seconds, the service answers
  \<open>RUNNING\<close> at 299.5 seconds: the round goes on, since 299.5 is not above 300. After
  the sleep the loop checks the status once more, at 300.5 seconds, past the timeout,
  and the answer is \<open>SUCCEEDED\<close>: no terminal state was reached before the timeout
  elapsed, yet the state test comes first in the round, the loop ends, the results are
  fetched, and no timeout is raised.
\<close>

theorem late_success_beats_timeout:
  "running (timeout demo_client) (answer ''RUNNING'' None 299.5)
   \<and> elapsed (answer ''SUCCEEDED'' None 300.5) > real_of_int (timeout demo_client)
   \<and> execute_query demo_client
        (demo_service [answer ''RUNNING'' None 299.5, answer ''SUCCEEDED'' None 300.5])
        ''SELECT 1'' =
      (Some (Inr [[Some ''s1'', Some ''12''], [Some ''s2'', None], [Some ''s4'', Some ''9'']]),
       [submit demo_client ''SELECT 1'', GetQueryExecution ''q-1'', Sleep 1,
        GetQueryExecution ''q-1'', Paginate ''q-1''])"
  by (simp add: running_def terminal_def answer_def demo_client_def demo_service_def
      demo_pages_def execute_query_def submit_def decode_def cell_def null_cell_def)

text \<open>
  C4 (amended: the answer of the round that finds the timeout exceeded is not terminal
  either). When every status check is answered with a non-terminal state up to and
  including the first round whose elapsed time is above the timeout, \<open>_execute_query\<close>
  raises \<open>QueryError\<close> with the message \<open>Query timeout after <timeout>s\<close> in that
  round. The requests made are the submission, one status check and one sleep for each
  earlier round, and the status check of the last round: nothing is asked of the service
  afterwards, whatever it would have answered (\<open>post\<close> is arbitrary) and whichever
  non-terminal state it reported.
\<close>

theorem poll_timeout:
  assumes "start_query_execution service = Inr query_id"
    and "get_query_execution service = pre @ p # post"
    and "list_all (running (timeout self)) pre"
    and "response p = Inr st" and "\<not> terminal st"
    and "elapsed p > real_of_int (timeout self)"
  shows "execute_query self service query =
     (Some (Inl (QueryError (''Query timeout after '' @ str_int (timeout self) @ ''s''))),
      submit self query # rounds query_id (length pre) @ [GetQueryExecution query_id])"
proof -
  have "poll_loop (timeout self) query_id (p # post) =
     (Some (Inl (QueryError (''Query timeout after '' @ str_int (timeout self) @ ''s''))),
      [GetQueryExecution query_id])"
    using assms(4-6) by (simp add: terminal_def)
  then have "poll_loop (timeout self) query_id (pre @ p # post) =
     (Some (Inl (QueryError (''Query timeout after '' @ str_int (timeout self) @ ''s''))),
      rounds query_id (length pre) @ [GetQueryExecution query_id])"
    using poll_loop_running [OF assms(3), of query_id "p # post"] by simp
  then show ?thesis
    using assms(1,2) by (simp add: execute_query_def submit_def)
qed

theorem poll_timeout_witness:
  "execute_query demo_client
     (demo_service [answer ''QUEUED'' None 0.2, answer ''RUNNING'' None 299.5,
        answer ''RUNNING'' None 300.5, answer ''SUCCEEDED'' None 301.5]) ''SELECT 1'' =
     (Some (Inl (QueryError ''Query timeout after 300s'')),
      [submit demo_client ''SELECT 1'', GetQueryExecution ''q-1'', Sleep 1,
       GetQueryExecution ''q-1'', Sleep 1, GetQueryExecution ''q-1''])"
  using poll_timeout
    [where service = "demo_service [answer ''QUEUED'' None 0.2, answer ''RUNNING'' None 299.5,
        answer ''RUNNING'' None 300.5, answer ''SUCCEEDED'' None 301.5]"
       and query_id = "''q-1''"
       and pre = "[answer ''QUEUED'' None 0.2, answer ''RUNNING'' None 299.5]"
       and p = "answer ''RUNNING'' None 300.5"
       and post = "[answer ''SUCCEEDED'' None 301.5]" and self = demo_client
       and st = "\<lparr> State = ''RUNNING'', StateChangeReason = None \<rparr>"
       and query = "''SELECT 1''"]
  by (simp add: demo_service_def demo_client_def answer_def running_def terminal_def rounds_def
      str_int_def str_nat.simps numeral_2_eq_2)

text \<open>
  C5. Let the status checks be answered with non-terminal states, within the timeout,
  until one answer carries a terminal state. If that state is \<open>SUCCEEDED\<close>, the
  paginator is asked for the results and their fetch is the outcome. If it is \<open>FAILED\<close>
  or \<open>CANCELLED\<close>, \<open>QueryError\<close> is raised with \<open>Query failed:\<close> followed by the
  reason the service gave, or by \<open>Unknown error\<close> when it gave none; the request list
  ends with that status check, so the query is not submitted again, not polled again and
  no results are fetched.
\<close>

theorem poll_terminal_states:
  assumes "start_query_execution service = Inr query_id"
    and "get_query_execution service = pre @ p # post"
    and "list_all (running (timeout self)) pre"
    and "response p = Inr st"
  shows "(State st = ''SUCCEEDED'' \<longrightarrow>
            execute_query self service query =
              (Some (map_sum reraise id (fetch_pages (get_query_results service) [])),
               submit self query # rounds query_id (length pre)
                 @ [GetQueryExecution query_id, Paginate query_id]))
       \<and> (State st = ''FAILED'' \<or> State st = ''CANCELLED'' \<longrightarrow>
            execute_query self service query =
              (Some (Inl (QueryError (''Query failed: '' @
                 (case StateChangeReason st of
                    Some reason \<Rightarrow> reason
                  | None \<Rightarrow> ''Unknown error'')))),
               submit self query # rounds query_id (length pre) @ [GetQueryExecution query_id]))"
proof (intro conjI impI)
  assume ok: "State st = ''SUCCEEDED''"
  have "poll_loop (timeout self) query_id (p # post) =
      (Some (Inr ()), [GetQueryExecution query_id])"
    using assms(4) ok by simp
  then have "poll_loop (timeout self) query_id (pre @ p # post) =
     (Some (Inr ()), rounds query_id (length pre) @ [GetQueryExecution query_id])"
    using poll_loop_running [OF assms(3), of query_id "p # post"] by simp
  then show "execute_query self service query =
              (Some (map_sum reraise id (fetch_pages (get_query_results service) [])),
               submit self query # rounds query_id (length pre)
                 @ [GetQueryExecution query_id, Paginate query_id])"
    using assms(1,2)
    by (cases "fetch_pages (get_query_results service) []")
       (simp_all add: execute_query_def submit_def Let_def)
next
  assume bad: "State st = ''FAILED'' \<or> State st = ''CANCELLED''"
  let ?err = "QueryError (''Query failed: '' @
                 (case StateChangeReason st of
                    Some reason \<Rightarrow> reason
                  | None \<Rightarrow> ''Unknown error''))"
  have "poll_loop (timeout self) query_id (p # post) =
      (Some (Inl ?err), [GetQueryExecution query_id])"
    using assms(4) bad by auto
  then have "poll_loop (timeout self) query_id (pre @ p # post) =
     (Some (Inl ?err), rounds query_id (length pre) @ [GetQueryExecution query_id])"
    using poll_loop_running [OF assms(3), of query_id "p # post"] by simp
  then show "execute_query self service query =
              (Some (Inl ?err),
               submit self query # rounds query_id (length pre) @ [GetQueryExecution query_id])"
    using assms(1,2) by (simp add: execute_query_def submit_def)
qed

theorem poll_terminal_states_witness:
  "execute_query demo_client
     (demo_service [answer ''QUEUED'' None 0.2, answer ''RUNNING'' None 1.3,
        answer ''SUCCEEDED'' None 2.4]) ''SELECT 1'' =
     (Some (Inr [[Some ''s1'', Some ''12''], [Some ''s2'', None], [Some ''s4'', Some ''9'']]),
      [submit demo_client ''SELECT 1'', GetQueryExecution ''q-1'', Sleep 1,
       GetQueryExecution ''q-1'', Sleep 1, GetQueryExecution ''q-1'', Paginate ''q-1''])
   \<and> execute_query demo_client
     (demo_service [answer ''RUNNING'' None 0.2,
        answer ''FAILED'' (Some ''SYNTAX_ERROR: line 1'') 1.3, answer ''SUCCEEDED'' None 2.4])
     ''SELECT 1'' =
     (Some (Inl (QueryError ''Query failed: SYNTAX_ERROR: line 1'')),
      [submit demo_client ''SELECT 1'', GetQueryExecution ''q-1'', Sleep 1,
       GetQueryExecution ''q-1''])
   \<and> execute_query demo_client (demo_service [answer ''CANCELLED'' None 0.2]) ''SELECT 1'' =
     (Some (Inl (QueryError ''Query failed: Unknown error'')),
      [submit demo_client ''SELECT 1'', GetQueryExecution ''q-1''])"
  using
    poll_terminal_states
      [where service = "demo_service [answer ''QUEUED'' None 0.2,
          answer ''RUNNING'' None 1.3, answer ''SUCCEEDED'' None 2.4]"
         and query_id = "''q-1''"
         and pre = "[answer ''QUEUED'' None 0.2, answer ''RUNNING'' None 1.3]"
         and p = "answer ''SUCCEEDED'' None 2.4" and post = "[]" and self = demo_client
         and st = "\<lparr> State = ''SUCCEEDED'', StateChangeReason = None \<rparr>"
         and query = "''SELECT 1''"]
    poll_terminal_states
      [where service = "demo_service [answer ''RUNNING'' None 0.2,
          answer ''FAILED'' (Some ''SYNTAX_ERROR: line 1'') 1.3, answer ''SUCCEEDED'' None 2.4]"
         and query_id = "''q-1''"
         and pre = "[answer ''RUNNING'' None 0.2]"
         and p = "answer ''FAILED'' (Some ''SYNTAX_ERROR: line 1'') 1.3"
         and post = "[answer ''SUCCEEDED'' None 2.4]" and self = demo_client
         and st = "\<lparr> State = ''FAILED'', StateChangeReason = Some ''SYNTAX_ERROR: line 1'' \<rparr>"
         and query = "''SELECT 1''"]
    poll_terminal_states
      [where service = "demo_service [answer ''CANCELLED'' None 0.2]"
         and query_id = "''q-1''" and pre = "[]"
         and p = "answer ''CANCELLED'' None 0.2" and post = "[]" and self = demo_client
         and st = "\<lparr> State = ''CANCELLED'', StateChangeReason = None \<rparr>"
         and query = "''SELECT 1''"]
  by (simp add: demo_service_def demo_client_def demo_pages_def answer_def running_def
      terminal_def rounds_def numeral_2_eq_2 decode_def cell_def null_cell_def)

text \<open>
  C6. When the paginator delivers the pages \<open>pages\<close>, the fetch returns, page after
  page in the order delivered, the rows of each page but its first, and every such row
  as the list of what its columns hold under \<open>VarCharValue\<close>: the string when the
  column has the key, \<open>None\<close> when it has not. The number of rows returned is the sum
  over the pages of the page's rows less its header; when every page has its header row,
  that is the total number of rows less the number of pages.
\<close>

theorem fetch_skips_page_headers:
  "fetch_pages (map Inr pages) [] =
     Inr (concat (map (\<lambda>pg. map (\<lambda>r. map (\<lambda>col. col ''VarCharValue'') r) (drop 1 pg)) pages))
   \<and> length (concat (map (\<lambda>pg. map (\<lambda>r. map (\<lambda>col. col ''VarCharValue'') r) (drop 1 pg)) pages))
       = sum_list (map (\<lambda>pg. length pg - 1) pages)
   \<and> (list_all (\<lambda>pg. pg \<noteq> []) pages \<longrightarrow>
        int (length (concat
               (map (\<lambda>pg. map (\<lambda>r. map (\<lambda>col. col ''VarCharValue'') r) (drop 1 pg)) pages)))
          = int (sum_list (map length pages)) - int (length pages))"
proof -
  have dec: "decode = (\<lambda>r. map (\<lambda>col. col ''VarCharValue'') r)"
    by (rule ext) (simp add: decode_def)
  have eq: "fetch_pages (map Inr pages) [] =
      Inr (concat (map (\<lambda>pg. map decode (drop 1 pg)) pages))"
    using fetch_pages_eq [of pages "[]"] by simp
  have len: "length (concat (map (\<lambda>pg. map decode (drop 1 pg)) pages))
       = sum_list (map (\<lambda>pg. length pg - 1) pages)"
    by (simp add: length_concat comp_def)
  have cnt: "list_all (\<lambda>pg. pg \<noteq> []) pages \<Longrightarrow>
      int (length (concat (map (\<lambda>pg. map decode (drop 1 pg)) pages)))
        = int (sum_list (map length pages)) - int (length pages)"
    by (rule count_rows)
  show ?thesis
    using eq len cnt unfolding dec by blast
qed

text \<open>
  Two pages of three and two rows, one column without \<open>VarCharValue\<close>: the first row
  of each page is dropped, three rows remain, which is five rows less two headers, and
  the column without a value comes out as \<open>None\<close>.
\<close>

theorem fetch_skips_page_headers_witness:
  "fetch_pages (map Inr demo_pages) [] =
     Inr [[Some ''s1'', Some ''12''], [Some ''s2'', None], [Some ''s4'', Some ''9'']]
   \<and> list_all (\<lambda>pg. pg \<noteq> []) demo_pages
   \<and> int (length [[Some ''s1'', Some ''12''], [Some ''s2'', None], [Some ''s4'', Some ''9'']])
       = int (sum_list (map length demo_pages)) - int (length demo_pages)"
  using fetch_skips_page_headers [of demo_pages]
  by (simp add: demo_pages_def cell_def null_cell_def)


section \<open>Rewriting the caller's SQL\<close>

subsection \<open>Substrings and replacement\<close>

lemma contains_iff: "contains sub s \<longleftrightarrow> (\<exists>pre post. s = pre @ sub @ post)"
proof (induction s)
  case Nil
  then show ?case by auto
next
  case (Cons c cs)
  show ?case
  proof
    assume "contains sub (c # cs)"
    then consider "prefix sub (c # cs)" | "contains sub cs" by auto
    then show "\<exists>pre post. c # cs = pre @ sub @ post"
    proof cases
      case 1
      then obtain post where "c # cs = sub @ post" by (auto simp: prefix_def)
      then have "c # cs = [] @ sub @ post" by simp
      then show ?thesis by blast
    next
      case 2
      with Cons obtain pre post where "cs = pre @ sub @ post" by blast
      then have "c # cs = (c # pre) @ sub @ post" by simp
      then show ?thesis by blast
    qed
  next
    assume "\<exists>pre post. c # cs = pre @ sub @ post"
    then obtain pre post where eq: "c # cs = pre @ sub @ post" by blast
    show "contains sub (c # cs)"
    proof (cases pre)
      case Nil
      with eq have "prefix sub (c # cs)" by (simp add: prefix_def)
      then show ?thesis by simp
    next
      case (Cons p pre')
      with eq have "cs = pre' @ sub @ post" by simp
      with Cons.IH have "contains sub cs" by blast
      then show ?thesis by simp
    qed
  qed
qed

lemma contains_upper: "contains sub s \<Longrightarrow> contains (upper sub) (upper s)"
  unfolding contains_iff upper_def by (metis map_append)

lemma replace_first_absent: "\<not> contains old s \<Longrightarrow> replace_first old new s = s"
  by (induction s) auto

lemma prefix_within:
  assumes "prefix old (xs @ ys)" and "length old \<le> length xs"
  shows "prefix old xs"
proof -
  from assms(1) obtain zs where "xs @ ys = old @ zs" by (auto simp: prefix_def)
  with assms(2) have "take (length old) xs = old"
    by (metis append_eq_conv_conj take_append diff_is_0_eq take_0 append_Nil2)
  then show ?thesis by (metis take_is_prefix)
qed

text \<open>
  \<open>pre @ old @ post\<close> has its leftmost occurrence of \<open>old\<close> right after \<open>pre\<close> when
  no occurrence starts inside \<open>pre\<close>, that is, when \<open>old\<close> does not occur in \<open>pre\<close>
  followed by all of \<open>old\<close> but its last character.
\<close>

lemma first_occurrence_no_prefix:
  assumes "old \<noteq> []" and "\<not> contains old ((p # pre) @ butlast old)"
  shows "\<not> prefix old ((p # pre) @ old @ post)"
proof
  assume "prefix old ((p # pre) @ old @ post)"
  moreover have "old @ post = butlast old @ [last old] @ post"
    using assms(1) by simp
  ultimately have "prefix old (((p # pre) @ butlast old) @ [last old] @ post)"
    by simp
  moreover have "length old \<le> length ((p # pre) @ butlast old)"
    using assms(1) by (cases old) auto
  ultimately have "prefix old ((p # pre) @ butlast old)" by (rule prefix_within)
  then have "contains old ((p # pre) @ butlast old)" by simp
  with assms(2) show False by simp
qed

lemma replace_first_at:
  assumes "old \<noteq> []" and "\<not> contains old (pre @ butlast old)"
  shows "replace_first old new (pre @ old @ post) = pre @ new @ post"
  using assms(2)
proof (induction pre)
  case Nil
  from assms(1) obtain c cs where old: "old = c # cs" by (cases old) auto
  then show ?case by simp
next
  case (Cons p pre)
  then have np: "\<not> prefix old ((p # pre) @ old @ post)"
    using first_occurrence_no_prefix [OF assms(1)] by blast
  from Cons.prems have "\<not> contains old (pre @ butlast old)" by simp
  with Cons.IH have "replace_first old new (pre @ old @ post) = pre @ new @ post" by blast
  with np show ?case by simp
qed

lemma replace_all_absent:
  assumes "old \<noteq> []"
  shows "\<not> contains old s \<Longrightarrow> replace_all old new s = s"
proof (induction s)
  case Nil
  then show ?case using assms by (simp add: replace_all.simps)
next
  case (Cons c cs)
  then have "\<not> prefix old (c # cs)" and "replace_all old new cs = cs" by simp_all
  then show ?case using assms by (subst replace_all.simps) simp
qed

lemma replace_all_at:
  assumes "old \<noteq> []" and "\<not> contains old (pre @ butlast old)"
  shows "replace_all old new (pre @ old @ post) = pre @ new @ replace_all old new post"
  using assms(2)
proof (induction pre)
  case Nil
  from assms(1) obtain c cs where old: "old = c # cs" by (cases old) auto
  then show ?case by (subst replace_all.simps) simp
next
  case (Cons p pre)
  then have np: "\<not> prefix old ((p # pre) @ old @ post)"
    using first_occurrence_no_prefix [OF assms(1)] by blast
  from Cons.prems have "\<not> contains old (pre @ butlast old)" by simp
  with Cons.IH have "replace_all old new (pre @ old @ post) = pre @ new @ replace_all old new post"
    by blast
  with np assms(1) show ?case by (subst replace_all.simps) simp
qed

subsection \<open>What the rewriting does when the keywords are written in upper case\<close>

text \<open>
  The lemmas of this subsection speak of the code through \<open>upper\<close>, so each takes the
  caller's query to be ASCII text.
\<close>

lemma upper_WHERE: "upper ''WHERE'' = ''WHERE''"
  by (simp add: upper_def upper_char_def)

text \<open>
  A query that has \<open>WHERE\<close> in upper case gets the filter, followed by \<open>AND\<close>, right
  after the leftmost \<open>WHERE\<close>; the text before and after stays as it was.
\<close>

lemma inject_where_as_written:
  assumes "query = pre @ ''WHERE'' @ post" and "\<not> contains ''WHERE'' (pre @ ''WHER'')"
    and "ascii_text query"
  shows "inject_galaxy_id galaxy_id query =
     pre @ ''WHERE '' @ galaxy_filter galaxy_id @ '' AND'' @ post"
proof -
  have "contains ''WHERE'' query" using assms(1) contains_iff by blast
  then have "contains ''WHERE'' (upper query)"
    using contains_upper [of "''WHERE''" query] by (simp add: upper_WHERE)
  moreover have "replace_first ''WHERE'' new (pre @ ''WHERE'' @ post) = pre @ new @ post" for new
    using replace_first_at [of "''WHERE''" pre new post] assms(2) by simp
  ultimately show ?thesis using assms(1) by (simp add: inject_galaxy_id_def)
qed

lemma inject_before_found:
  assumes "list_all (\<lambda>k. \<not> contains k (upper query)) skipped"
    and "contains keyword (upper query)"
  shows "inject_before (skipped @ keyword # rest) galaxy_id query =
     replace_first keyword (''WHERE '' @ galaxy_filter galaxy_id @ '' '' @ keyword) query"
  using assms by (induction skipped) auto

lemma inject_before_none:
  "list_all (\<lambda>k. \<not> contains k (upper query)) ks \<Longrightarrow>
   inject_before ks galaxy_id query = query @ '' WHERE '' @ galaxy_filter galaxy_id"
  by (induction ks) auto

text \<open>
  A query without \<open>WHERE\<close> in any case: the first of \<open>LIMIT\<close>, \<open>ORDER BY\<close>,
  \<open>GROUP BY\<close> that the upper-cased query contains, when the query has it in upper
  case, gets \<open>WHERE\<close> and the filter in front of its leftmost occurrence; a query with
  none of the three in any case gets them appended.
\<close>

lemma inject_keyword_as_written:
  assumes "\<not> contains ''WHERE'' (upper query)"
    and "[''LIMIT'', ''ORDER BY'', ''GROUP BY''] = skipped @ keyword # rest"
    and "list_all (\<lambda>k. \<not> contains k (upper query)) skipped"
    and "query = pre @ keyword @ post"
    and "\<not> contains keyword (pre @ butlast keyword)"
    and "ascii_text query"
  shows "inject_galaxy_id galaxy_id query =
     pre @ ''WHERE '' @ galaxy_filter galaxy_id @ '' '' @ keyword @ post"
proof -
  have "keyword \<in> set [''LIMIT'', ''ORDER BY'', ''GROUP BY'']"
    using assms(2) by (metis in_set_conv_decomp)
  then have kw: "keyword \<noteq> []" "upper keyword = keyword"
    by (auto simp: upper_def upper_char_def)
  have "contains keyword query" using assms(4) contains_iff by blast
  then have "contains keyword (upper query)"
    using contains_upper [of keyword query] kw(2) by simp
  then have "inject_before (skipped @ keyword # rest) galaxy_id query =
     replace_first keyword (''WHERE '' @ galaxy_filter galaxy_id @ '' '' @ keyword) query"
    using inject_before_found [OF assms(3)] by blast
  also have "\<dots> = pre @ (''WHERE '' @ galaxy_filter galaxy_id @ '' '' @ keyword) @ post"
    using replace_first_at [OF kw(1) assms(5)] assms(4) by simp
  finally show ?thesis
    using assms(1,2) by (simp add: inject_galaxy_id_def)
qed

lemma inject_appended:
  assumes "\<not> contains ''WHERE'' (upper query)"
    and "list_all (\<lambda>k. \<not> contains k (upper query)) [''LIMIT'', ''ORDER BY'', ''GROUP BY'']"
    and "ascii_text query"
  shows "inject_galaxy_id galaxy_id query = query @ '' WHERE '' @ galaxy_filter galaxy_id"
  using assms(1) inject_before_none [OF assms(2)] by (simp add: inject_galaxy_id_def)

text \<open>
  The time filter: nothing is added for a time of zero (or below); for a time above
  zero, a query that holds the filter text exactly once gets the clause right after it.
\<close>

lemma add_universe_time_zero:
  "universe_time \<le> 0 \<Longrightarrow> add_universe_time galaxy_id universe_time query = query"
  by (simp add: add_universe_time_def)

lemma add_universe_time_once:
  assumes "0 < universe_time"
    and "query = pre @ galaxy_filter galaxy_id @ post"
    and "\<not> contains (galaxy_filter galaxy_id) (pre @ butlast (galaxy_filter galaxy_id))"
    and "\<not> contains (galaxy_filter galaxy_id) post"
  shows "add_universe_time galaxy_id universe_time query =
     pre @ galaxy_filter galaxy_id @ '' AND universe_time = '' @ str_int universe_time @ post"
proof -
  have ne: "galaxy_filter galaxy_id \<noteq> []" by (simp add: galaxy_filter_def)
  show ?thesis
    using assms(1,2) replace_all_at [OF ne assms(3)] replace_all_absent [OF ne assms(4)]
    by (simp add: add_universe_time_def)
qed

text \<open>The rewritten text is what \<open>query_galaxy\<close> submits.\<close>

lemma query_galaxy_submits:
  "\<exists>requests. snd (query_galaxy self service galaxy_id query universe_time) =
     submit self (query_galaxy_sql galaxy_id query universe_time) # requests"
  by (auto simp: query_galaxy_def execute_query_def submit_def Let_def
      split: sum.splits option.splits prod.splits)

text \<open>
  A keyword that the upper-cased query contains and the query as written does not is
  found and then not replaced: the query stays as it is.
\<close>

lemma inject_where_missed:
  assumes "contains ''WHERE'' (upper query)" and "\<not> contains ''WHERE'' query"
    and "ascii_text query"
  shows "inject_galaxy_id galaxy_id query = query"
  using assms by (simp add: inject_galaxy_id_def replace_first_absent)

lemma inject_keyword_missed:
  assumes "\<not> contains ''WHERE'' (upper query)"
    and "[''LIMIT'', ''ORDER BY'', ''GROUP BY''] = skipped @ keyword # rest"
    and "list_all (\<lambda>k. \<not> contains k (upper query)) skipped"
    and "contains keyword (upper query)" and "\<not> contains keyword query"
    and "ascii_text query"
  shows "inject_galaxy_id galaxy_id query = query"
proof -
  have "inject_before (skipped @ keyword # rest) galaxy_id query =
     replace_first keyword (''WHERE '' @ galaxy_filter galaxy_id @ '' '' @ keyword) query"
    using inject_before_found [OF assms(3,4)] by blast
  also have "\<dots> = query"
    using assms(5) by (rule replace_first_absent)
  finally show ?thesis
    using assms(1,2) by (simp add: inject_galaxy_id_def)
qed

lemmas rewrite_defs =
  query_galaxy_sql_def add_universe_time_def inject_galaxy_id_def galaxy_filter_def quote_def
  upper_def upper_char_def

subsection \<open>Where the rewriting misses\<close>

text \<open>
  C1. The claim has the filter inserted after \<open>WHERE\<close> also when the caller wrote
  \<open>where\<close>. The code finds the keyword in the upper-cased query and then replaces
  \<open>WHERE\<close> in the query as written, where it does not occur: for the caller's
  \<open>select * from star where mass>10\<close> and the galaxy \<open>g1\<close>, the query goes out as it
  came in, with no \<open>galaxy_id\<close> filter.
\<close>

theorem lower_case_where_gets_no_filter:
  "contains ''WHERE'' (upper ''select * from star where mass>10'')
   \<and> query_galaxy_sql ''g1'' ''select * from star where mass>10'' 0
       = ''select * from star where mass>10''"
  by (simp add: rewrite_defs)

text \<open>
  C2. The claim has exactly one \<open>AND universe_time = <value>\<close> clause, next to the
  inserted filter, also when the filter text occurs elsewhere in the caller's SQL. The
  code replaces every occurrence of the filter text: with the galaxy \<open>g1\<close>, the time 5
  and the caller's \<open>SELECT * FROM star WHERE mass>10 OR galaxy_id = 'g1'\<close>, the clause
  is added twice, once after the inserted filter and once after the caller's own. And
  where no filter was inserted, as for \<open>select * from star where mass>10\<close>, no clause
  is added at all.
\<close>

theorem universe_time_clause_repeated:
  "query_galaxy_sql ''g1'' (''SELECT * FROM star WHERE mass>10 OR '' @ galaxy_filter ''g1'') 5
     = ''SELECT * FROM star WHERE '' @ galaxy_filter ''g1'' @ '' AND universe_time = 5''
         @ '' AND mass>10 OR '' @ galaxy_filter ''g1'' @ '' AND universe_time = 5''
   \<and> query_galaxy_sql ''g1'' ''select * from star where mass>10'' 5
       = ''select * from star where mass>10''"
  by (simp add: rewrite_defs replace_all.simps str_int_def str_nat.simps)

text \<open>
  C3. The claim has \<open>WHERE\<close> and the filter inserted before \<open>LIMIT\<close>, \<open>ORDER BY\<close>
  or \<open>GROUP BY\<close>, or appended when there is none. The code finds the keyword in the
  upper-cased query and then replaces it in the query as written: for the caller's
  \<open>select * from star limit 5\<close>, which has no \<open>WHERE\<close> in any case, the loop ends at
  \<open>LIMIT\<close> after a replacement that changes nothing, the \<open>else\<close> branch that appends
  is not run, and the query goes out with no filter.
\<close>

theorem lower_case_limit_gets_no_filter:
  "\<not> contains ''WHERE'' (upper ''select * from star limit 5'')
   \<and> contains ''LIMIT'' (upper ''select * from star limit 5'')
   \<and> query_galaxy_sql ''g1'' ''select * from star limit 5'' 0 = ''select * from star limit 5''"
  by (simp add: rewrite_defs)

end
